theory Spec2Isabelle
  imports Main "HOL-Library.Sublist"
begin

section \<open>Values, messages and errors\<close>

text \<open>
  The script \<^verbatim>\<open>multi_agent_framework.py\<close> validates three environment variables,
  defines three agent steps and wires them into a graph with conditional edges.
  Python strings are modelled as \<^typ>\<open>string\<close>, read as sequences of code points
  below 256. Exceptions are values of \<open>py_error\<close>; a function that can raise
  returns \<open>py_error + 'a\<close> with \<open>Inl\<close> for the exception.
\<close>

datatype py_error =
    EnvironmentError string
  | IndexError
  | KeyError string
  | ValueError string
  | ExternalError string
  | GraphRecursionError

text \<open>
  The values the search tool hands back and \<^verbatim>\<open>research_data\<close> holds: strings,
  lists and dictionaries (a dictionary as its items in insertion order).
\<close>

datatype pyval =
    PyStr string
  | PyList "pyval list"
  | PyDict "(pyval \<times> pyval) list"

definition newline :: string where
  "newline = [CHR 0x0A]"

text \<open>\<^verbatim>\<open>sep.join(parts)\<close>\<close>

fun join :: "string \<Rightarrow> string list \<Rightarrow> string" where
  "join sep [] = []"
| "join sep [x] = x"
| "join sep (x # y # ys) = x @ sep @ join sep (y # ys)"

subsection \<open>\<^verbatim>\<open>repr\<close> and \<^verbatim>\<open>str\<close>\<close>

definition hex_digit :: "nat \<Rightarrow> char" where
  "hex_digit d = (''0123456789abcdef'') ! (d mod 16)"

text \<open>
  A code point is copied by \<^verbatim>\<open>repr\<close> when it is printable: the ASCII range from the
  space to the tilde, and the Latin-1 range from 0xA1 on, the soft hyphen 0xAD apart.
\<close>

definition printable :: "char \<Rightarrow> bool" where
  "printable c = (let n = of_char c :: nat in
     (32 \<le> n \<and> n < 127) \<or> (161 \<le> n \<and> n \<noteq> 173))"

definition repr_char :: "char \<Rightarrow> char \<Rightarrow> string" where
  "repr_char quote c =
     (if c = quote \<or> c = CHR 0x5C then [CHR 0x5C, c]
      else if c = CHR 0x09 then [CHR 0x5C, CHR ''t'']
      else if c = CHR 0x0A then [CHR 0x5C, CHR ''n'']
      else if c = CHR 0x0D then [CHR 0x5C, CHR ''r'']
      else if printable c then [c]
      else [CHR 0x5C, CHR ''x'', hex_digit (of_char c div 16), hex_digit (of_char c)])"

text \<open>
  \<^verbatim>\<open>repr\<close> of a string quotes it with the apostrophe, or with the double quote when
  the string has an apostrophe and no double quote.
\<close>

definition repr_str :: "string \<Rightarrow> string" where
  "repr_str s =
     (let quote = (if CHR 0x27 \<in> set s \<and> CHR 0x22 \<notin> set s then CHR 0x22 else CHR 0x27)
      in [quote] @ concat (map (repr_char quote) s) @ [quote])"

fun py_repr :: "pyval \<Rightarrow> string" where
  "py_repr (PyStr s) = repr_str s"
| "py_repr (PyList xs) = ''['' @ join '', '' (map py_repr xs) @ '']''"
| "py_repr (PyDict kvs) =
     ''{'' @ join '', '' (map (\<lambda>kv. py_repr (fst kv) @ '': '' @ py_repr (snd kv)) kvs) @ ''}''"

text \<open>\<^verbatim>\<open>str(v)\<close>, which an f-string applies to an interpolated value.\<close>

fun py_str :: "pyval \<Rightarrow> string" where
  "py_str (PyStr s) = s"
| "py_str v = py_repr v"

subsection \<open>Messages\<close>

datatype msg_type = Human | AI

text \<open>
  A \<^verbatim>\<open>BaseMessage\<close>: its type, its text and its id. The reducer \<^verbatim>\<open>add_messages\<close>
  gives a message without id a new \<^verbatim>\<open>uuid4\<close>; the id \<open>None\<close> stands for such an id,
  which is equal to no other.
\<close>

record BaseMessage =
  msg_type :: msg_type
  content :: string
  msg_id :: "string option"

definition HumanMessage :: "string \<Rightarrow> BaseMessage" where
  "HumanMessage c = \<lparr>msg_type = Human, content = c, msg_id = None\<rparr>"

section \<open>Environment setup\<close>

type_synonym environ = "string \<rightharpoonup> string"

definition required_keys :: "(string \<times> string) list" where
  "required_keys =
     [(''TAVILY_API_KEY'', ''Tavily Search API''),
      (''ANTHROPIC_API_KEY'', ''Anthropic Claude API''),
      (''LANGCHAIN_API_KEY'', ''LangSmith API'')]"

text \<open>\<^verbatim>\<open>not os.getenv(key)\<close>: the variable is unset or is the empty string.\<close>

definition not_getenv :: "environ \<Rightarrow> string \<Rightarrow> bool" where
  "not_getenv env key = (case env key of None \<Rightarrow> True | Some v \<Rightarrow> v = [])"

text \<open>The loop that collects \<^verbatim>\<open>missing_keys\<close>, over the items in insertion order.\<close>

fun collect_missing :: "environ \<Rightarrow> (string \<times> string) list \<Rightarrow> string list \<Rightarrow> string list" where
  "collect_missing env [] missing_keys = missing_keys"
| "collect_missing env ((key, service) # items) missing_keys =
     (if not_getenv env key
      then collect_missing env items (missing_keys @ [service @ '' ('' @ key @ '')''])
      else collect_missing env items missing_keys)"

definition missing_message :: "string list \<Rightarrow> string" where
  "missing_message missing_keys =
     ''Missing required API keys:'' @ newline @
     join newline (map (\<lambda>key. ''- '' @ key) missing_keys) @
     newline @ newline @
     ''Please set these environment variables or add them to your .env file''"

definition check_environment :: "environ \<Rightarrow> py_error + unit" where
  "check_environment env =
     (let missing_keys = collect_missing env required_keys []
      in if missing_keys \<noteq> [] then Inl (EnvironmentError (missing_message missing_keys))
         else Inr ())"

section \<open>State definition\<close>

record AgentState =
  messages :: "BaseMessage list"
  current_actor :: string
  research_data :: pyval

text \<open>
  What a step returns: a dictionary with some of the keys of the state.
\<close>

record StepResult =
  upd_messages :: "BaseMessage list option"
  upd_research_data :: "pyval option"
  upd_current_actor :: "string option"

text \<open>\<^verbatim>\<open>seq[-1]\<close>, which raises \<^verbatim>\<open>IndexError\<close> on the empty sequence.\<close>

definition last_item :: "'a list \<Rightarrow> py_error + 'a" where
  "last_item xs = (case xs of [] \<Rightarrow> Inl IndexError | _ \<Rightarrow> Inr (last xs))"

section \<open>Agent definitions\<close>

text \<open>
  The two clients are parameters: \<open>search_tool\<close> maps the query to the search result,
  \<open>llm\<close> maps the prompt to the generated message; \<open>Inl\<close> is an exception raised
  inside the call, which no step catches.
\<close>

type_synonym search_adapter = "string \<Rightarrow> string + pyval"
type_synonym llm_adapter = "string \<Rightarrow> string + BaseMessage"

definition ResearchAgent :: "search_adapter \<Rightarrow> AgentState \<Rightarrow> py_error + StepResult" where
  "ResearchAgent search_tool state =
     (case last_item (messages state) of
        Inl e \<Rightarrow> Inl e
      | Inr m \<Rightarrow>
          (let last_message = content m in
           case search_tool last_message of
             Inl e \<Rightarrow> Inl (ExternalError e)
           | Inr research_result \<Rightarrow>
               Inr \<lparr>upd_messages = Some [HumanMessage (''Research data: '' @ py_str research_result)],
                    upd_research_data = Some research_result,
                    upd_current_actor = Some ''analyst''\<rparr>))"

definition AnalysisAgent :: "llm_adapter \<Rightarrow> AgentState \<Rightarrow> py_error + StepResult" where
  "AnalysisAgent llm state =
     (case llm (''Analyze this data: '' @ py_str (research_data state)) of
        Inl e \<Rightarrow> Inl (ExternalError e)
      | Inr analysis \<Rightarrow>
          Inr \<lparr>upd_messages = Some [HumanMessage (content analysis)],
               upd_research_data = None,
               upd_current_actor = Some ''writer''\<rparr>)"

definition WritingAgent :: "llm_adapter \<Rightarrow> AgentState \<Rightarrow> py_error + StepResult" where
  "WritingAgent llm state =
     (case last_item (messages state) of
        Inl e \<Rightarrow> Inl e
      | Inr m \<Rightarrow>
          (case llm (''Generate final response using: '' @ content m) of
             Inl e \<Rightarrow> Inl (ExternalError e)
           | Inr final_response \<Rightarrow>
               Inr \<lparr>upd_messages = Some [final_response],
                    upd_research_data = None,
                    upd_current_actor = Some ''end''\<rparr>))"

section \<open>The graph runtime\<close>

text \<open>
  The state schema declares \<^verbatim>\<open>messages\<close> with the reducer \<^verbatim>\<open>add_messages\<close>; the
  other two keys have none, so a value written to them replaces the old one. The
  reducer merges by id: it maps each id of the left list to its index (a later
  entry of the comprehension overwrites an earlier one), then a message of the right list
  whose id is in that dictionary replaces the entry at that index, and any other
  message is appended.
\<close>

definition left_idx_by_id :: "BaseMessage list \<Rightarrow> string \<rightharpoonup> nat" where
  "left_idx_by_id left =
     map_of (rev (List.map_filter (\<lambda>(i, m). map_option (\<lambda>k. (k, i)) (msg_id m))
                    (enumerate 0 left)))"

definition add_message :: "BaseMessage list \<Rightarrow> BaseMessage list \<Rightarrow> BaseMessage \<Rightarrow> BaseMessage list" where
  "add_message left merged m =
     (case (case msg_id m of None \<Rightarrow> None | Some k \<Rightarrow> left_idx_by_id left k) of
        Some existing_idx \<Rightarrow> merged[existing_idx := m]
      | None \<Rightarrow> merged @ [m])"

definition add_messages :: "BaseMessage list \<Rightarrow> BaseMessage list \<Rightarrow> BaseMessage list" where
  "add_messages left right = foldl (add_message left) left right"

text \<open>The runtime merges the dictionary a step returned into the state, key by key.\<close>

definition apply_update :: "AgentState \<Rightarrow> StepResult \<Rightarrow> AgentState" where
  "apply_update state upd =
     \<lparr>messages = (case upd_messages upd of None \<Rightarrow> messages state
                   | Some new \<Rightarrow> add_messages (messages state) new),
      current_actor = (case upd_current_actor upd of None \<Rightarrow> current_actor state
                   | Some a \<Rightarrow> a),
      research_data = (case upd_research_data upd of None \<Rightarrow> research_data state
                   | Some d \<Rightarrow> d)\<rparr>"

section \<open>Graph construction\<close>

definition route_based_on_role :: "AgentState \<Rightarrow> string" where
  "route_based_on_role state = current_actor state"

definition END :: string where
  "END = ''__end__''"

text \<open>
  What \<^verbatim>\<open>add_node\<close>, \<^verbatim>\<open>set_entry_point\<close> and \<^verbatim>\<open>add_conditional_edges\<close> record:
  the steps by name, the entry point and, for a source node, the routing function
  with its path map.
\<close>

record StateGraph =
  nodes :: "(string \<times> (AgentState \<Rightarrow> py_error + StepResult)) list"
  entry_point :: string
  branches :: "(string \<times> (AgentState \<Rightarrow> string) \<times> (string \<times> string) list) list"

definition workflow :: "search_adapter \<Rightarrow> llm_adapter \<Rightarrow> StateGraph" where
  "workflow search_tool llm =
     \<lparr>nodes = [(''researcher'', ResearchAgent search_tool),
               (''analyst'', AnalysisAgent llm),
               (''writer'', WritingAgent llm)],
      entry_point = ''researcher'',
      branches =
        [(''researcher'', route_based_on_role,
            [(''analyst'', ''analyst''), (''writer'', ''writer''), (''end'', END)]),
         (''analyst'', route_based_on_role,
            [(''writer'', ''writer''), (''end'', END)]),
         (''writer'', route_based_on_role,
            [(''end'', END)])]\<rparr>"

text \<open>
  A conditional edge: the routing function is applied to the state that holds the
  step's update, and its result is looked up in the path map by subscript, which
  raises \<^verbatim>\<open>KeyError\<close> for a key that is not there. A node with no edge ends the run.
\<close>

definition next_node :: "StateGraph \<Rightarrow> string \<Rightarrow> AgentState \<Rightarrow> py_error + string" where
  "next_node graph name state =
     (case map_of (branches graph) name of
        None \<Rightarrow> Inr END
      | Some (path, path_map) \<Rightarrow>
          (case map_of path_map (path state) of
             None \<Rightarrow> Inl (KeyError (path state))
           | Some dest \<Rightarrow> Inr dest))"

text \<open>
  The run of the compiled graph from a node: the step runs, its update is merged, the
  edge picks the destination, until the destination is \<open>END\<close>. The first argument is
  the number of steps left before the runtime raises \<^verbatim>\<open>GraphRecursionError\<close>. The result
  is the list of the steps run, each with the state its edge was given, and the final
  state. A destination that is not a node is refused when the graph is compiled; here
  it is a \<^verbatim>\<open>ValueError\<close>, which the three path maps of the script never reach.
\<close>

fun run_graph :: "nat \<Rightarrow> StateGraph \<Rightarrow> string \<Rightarrow> AgentState \<Rightarrow>
    py_error + ((string \<times> AgentState) list \<times> AgentState)" where
  "run_graph 0 graph name state = Inl GraphRecursionError"
| "run_graph (Suc limit) graph name state =
     (case map_of (nodes graph) name of
        None \<Rightarrow> Inl (ValueError name)
      | Some step \<Rightarrow>
          (case step state of
             Inl e \<Rightarrow> Inl e
           | Inr upd \<Rightarrow>
               (let state' = apply_update state upd in
                case next_node graph name state' of
                  Inl e \<Rightarrow> Inl e
                | Inr dest \<Rightarrow>
                    if dest = END then Inr ([(name, state')], state')
                    else (case run_graph limit graph dest state' of
                            Inl e \<Rightarrow> Inl e
                          | Inr (outputs, final) \<Rightarrow> Inr ((name, state') # outputs, final)))))"

definition recursion_limit :: nat where
  "recursion_limit = 25"

text \<open>
  \<^verbatim>\<open>app.stream(inputs)\<close>: the input is written to the state through the reducers (the
  message list starts empty), and the graph runs from the entry point.
\<close>

definition app_stream :: "search_adapter \<Rightarrow> llm_adapter \<Rightarrow> AgentState \<Rightarrow>
    py_error + ((string \<times> AgentState) list \<times> AgentState)" where
  "app_stream search_tool llm input =
     (let graph = workflow search_tool llm
      in run_graph recursion_limit graph (entry_point graph)
           (input\<lparr>messages := add_messages [] (messages input)\<rparr>))"

section \<open>Execution example\<close>

definition inputs :: AgentState where
  "inputs =
     \<lparr>messages = [HumanMessage ''Research latest AI advancements''],
      current_actor = ''researcher'',
      research_data = PyDict []\<rparr>"

section \<open>Stubs and sample inputs\<close>

text \<open>Deterministic stand-ins for the two clients: each answers every call alike.\<close>

definition stub_search :: "pyval \<Rightarrow> search_adapter" where
  "stub_search result query = Inr result"

definition stub_llm :: "BaseMessage \<Rightarrow> llm_adapter" where
  "stub_llm response prompt = Inr response"

definition sample_results :: pyval where
  "sample_results = PyList [PyStr ''result A'', PyStr ''result B'']"

text \<open>A result of the shape the search tool returns: a list of one dictionary.\<close>

definition sample_hits :: pyval where
  "sample_hits = PyList [PyDict [(PyStr ''url'', PyStr ''https://example.org''),
                                 (PyStr ''content'', PyStr ''AI news'')]]"

definition sample_response :: BaseMessage where
  "sample_response = \<lparr>msg_type = AI, content = ''final'', msg_id = Some ''msg_1''\<rparr>"

text \<open>A state before the writing step whose last message has the id of \<open>sample_response\<close>.\<close>

definition draft_state :: AgentState where
  "draft_state =
     \<lparr>messages = [\<lparr>msg_type = AI, content = ''draft'', msg_id = Some ''msg_1''\<rparr>],
      current_actor = ''writer'',
      research_data = PyDict []\<rparr>"

text \<open>
  An environment with the Tavily variable set to the empty string, the Anthropic one
  set and the LangSmith one unset.
\<close>

definition partial_environ :: environ where
  "partial_environ = map_of [(''TAVILY_API_KEY'', []), (''ANTHROPIC_API_KEY'', ''sk-test'')]"

definition full_environ :: environ where
  "full_environ = map_of [(''TAVILY_API_KEY'', ''tvly-test''),
      (''ANTHROPIC_API_KEY'', ''sk-test''), (''LANGCHAIN_API_KEY'', ''ls-test'')]"

text \<open>
  For saying that a text shows a value: the strings that occur in the value, and the
  strings that \<^verbatim>\<open>repr\<close> copies unchanged between apostrophes (printable, with no
  apostrophe and no backslash).
\<close>

fun strings_of :: "pyval \<Rightarrow> string list" where
  "strings_of (PyStr s) = [s]"
| "strings_of (PyList xs) = concat (map strings_of xs)"
| "strings_of (PyDict kvs) = concat (map (\<lambda>kv. strings_of (fst kv) @ strings_of (snd kv)) kvs)"

definition plain :: "string \<Rightarrow> bool" where
  "plain s = list_all (\<lambda>c. printable c \<and> c \<noteq> CHR 0x27 \<and> c \<noteq> CHR 0x5C) s"

text \<open>The tags that name a step or the end of the run.\<close>

definition actor_tags :: "string set" where
  "actor_tags = {''researcher'', ''analyst'', ''writer'', ''end''}"

section \<open>The environment check\<close>

lemma collect_missing_required:
  "collect_missing env required_keys [] =
     (if not_getenv env ''TAVILY_API_KEY'' then [''Tavily Search API (TAVILY_API_KEY)''] else []) @
     (if not_getenv env ''ANTHROPIC_API_KEY'' then [''Anthropic Claude API (ANTHROPIC_API_KEY)''] else []) @
     (if not_getenv env ''LANGCHAIN_API_KEY'' then [''LangSmith API (LANGCHAIN_API_KEY)''] else [])"
  by (simp add: required_keys_def)

lemma collect_missing_filter:
  "collect_missing env items acc =
     acc @ map (\<lambda>(key, service). service @ '' ('' @ key @ '')'')
             (filter (\<lambda>(key, service). not_getenv env key) items)"
  by (induction env items acc rule: collect_missing.induct) simp_all

text \<open>
  The message is one of eight texts, by which of the three variables are missing. In
  each of them a key name occurs exactly when its variable is missing.
\<close>

lemma message_names_keys:
  "\<forall>b1 b2 b3.
     (let msg = missing_message
        ((if b1 then [''Tavily Search API (TAVILY_API_KEY)''] else []) @
         (if b2 then [''Anthropic Claude API (ANTHROPIC_API_KEY)''] else []) @
         (if b3 then [''LangSmith API (LANGCHAIN_API_KEY)''] else []))
      in sublist ''TAVILY_API_KEY'' msg = b1 \<and>
         sublist ''ANTHROPIC_API_KEY'' msg = b2 \<and>
         sublist ''LANGCHAIN_API_KEY'' msg = b3)"
  by code_simp

lemma message_names_services:
  "\<forall>b1 b2 b3.
     (let msg = missing_message
        ((if b1 then [''Tavily Search API (TAVILY_API_KEY)''] else []) @
         (if b2 then [''Anthropic Claude API (ANTHROPIC_API_KEY)''] else []) @
         (if b3 then [''LangSmith API (LANGCHAIN_API_KEY)''] else []))
      in sublist ''Tavily Search API (TAVILY_API_KEY)'' msg = b1 \<and>
         sublist ''Anthropic Claude API (ANTHROPIC_API_KEY)'' msg = b2 \<and>
         sublist ''LangSmith API (LANGCHAIN_API_KEY)'' msg = b3)"
  by code_simp

lemma not_getenv_iff: "not_getenv env key \<longleftrightarrow> env key = None \<or> env key = Some []"
  by (simp add: not_getenv_def split: option.splits)

lemma missing_message_not_getenv:
  assumes "\<exists>(key, service) \<in> set required_keys. not_getenv env key"
  shows "\<exists>msg. check_environment env = Inl (EnvironmentError msg) \<and>
     msg = missing_message
             (map (\<lambda>(key, service). service @ '' ('' @ key @ '')'')
                (filter (\<lambda>(key, service). not_getenv env key) required_keys)) \<and>
     (\<forall>(key, service) \<in> set required_keys.
        (sublist key msg \<longleftrightarrow> not_getenv env key) \<and>
        (sublist (service @ '' ('' @ key @ '')'') msg \<longleftrightarrow> not_getenv env key))"
proof -
  let ?missing = "collect_missing env required_keys []"
  let ?msg = "missing_message ?missing"
  from assms have nonempty: "?missing \<noteq> []"
    by (auto simp: collect_missing_required required_keys_def)
  then have raised: "check_environment env = Inl (EnvironmentError ?msg)"
    by (simp add: check_environment_def)
  have form: "?missing = map (\<lambda>(key, service). service @ '' ('' @ key @ '')'')
                (filter (\<lambda>(key, service). not_getenv env key) required_keys)"
    by (simp add: collect_missing_filter)
  have keys: "sublist ''TAVILY_API_KEY'' ?msg = not_getenv env ''TAVILY_API_KEY''"
    "sublist ''ANTHROPIC_API_KEY'' ?msg = not_getenv env ''ANTHROPIC_API_KEY''"
    "sublist ''LANGCHAIN_API_KEY'' ?msg = not_getenv env ''LANGCHAIN_API_KEY''"
    using message_names_keys unfolding collect_missing_required Let_def by blast+
  have services:
    "sublist ''Tavily Search API (TAVILY_API_KEY)'' ?msg = not_getenv env ''TAVILY_API_KEY''"
    "sublist ''Anthropic Claude API (ANTHROPIC_API_KEY)'' ?msg = not_getenv env ''ANTHROPIC_API_KEY''"
    "sublist ''LangSmith API (LANGCHAIN_API_KEY)'' ?msg = not_getenv env ''LANGCHAIN_API_KEY''"
    using message_names_services unfolding collect_missing_required Let_def by blast+
  have names: "\<forall>(key, service) \<in> set required_keys.
        (sublist key ?msg \<longleftrightarrow> not_getenv env key) \<and>
        (sublist (service @ '' ('' @ key @ '')'') ?msg \<longleftrightarrow> not_getenv env key)"
    using keys services by (simp add: required_keys_def)
  show ?thesis
  proof (intro exI conjI)
    show "check_environment env = Inl (EnvironmentError ?msg)"
      by (rule raised)
    show "?msg = missing_message
             (map (\<lambda>(key, service). service @ '' ('' @ key @ '')'')
                (filter (\<lambda>(key, service). not_getenv env key) required_keys))"
      by (simp only: form)
    show "\<forall>(key, service) \<in> set required_keys.
        (sublist key ?msg \<longleftrightarrow> not_getenv env key) \<and>
        (sublist (service @ '' ('' @ key @ '')'') ?msg \<longleftrightarrow> not_getenv env key)"
      by (rule names)
  qed
qed

text \<open>
  Claim C2. When at least one of the three required variables is unset or set to the
  empty string, \<open>check_environment\<close> raises \<^verbatim>\<open>EnvironmentError\<close>. Its message is the
  header, one line \<^verbatim>\<open>- service (key)\<close> for every variable that is unset or empty, in
  the order of \<open>required_keys\<close>, and the footer; the name of a required key, and its line
  with the service label, occur in the message exactly when that variable is unset or
  empty. So every missing key is named, not only the first, and no other.
\<close>

theorem check_environment_names_missing:
  assumes "\<exists>(key, service) \<in> set required_keys. env key = None \<or> env key = Some []"
  shows "\<exists>msg. check_environment env = Inl (EnvironmentError msg) \<and>
     msg = missing_message
             (map (\<lambda>(key, service). service @ '' ('' @ key @ '')'')
                (filter (\<lambda>(key, service). env key = None \<or> env key = Some []) required_keys)) \<and>
     (\<forall>(key, service) \<in> set required_keys.
        (sublist key msg \<longleftrightarrow> env key = None \<or> env key = Some []) \<and>
        (sublist (service @ '' ('' @ key @ '')'') msg \<longleftrightarrow> env key = None \<or> env key = Some []))"
proof -
  from assms have "\<exists>(key, service) \<in> set required_keys. not_getenv env key"
    by (simp only: not_getenv_iff)
  then show ?thesis
    unfolding not_getenv_iff [symmetric] by (rule missing_message_not_getenv)
qed

text \<open>
  With the Tavily variable set to the empty string, the Anthropic one set and the
  LangSmith one unset, the message lists the Tavily and the LangSmith variables and
  does not name the Anthropic one.
\<close>

theorem check_environment_names_missing_witness:
  "partial_environ ''TAVILY_API_KEY'' = Some [] \<and>
   partial_environ ''ANTHROPIC_API_KEY'' = Some ''sk-test'' \<and>
   partial_environ ''LANGCHAIN_API_KEY'' = None \<and>
   check_environment partial_environ =
     Inl (EnvironmentError
       (''Missing required API keys:'' @ newline @
        ''- Tavily Search API (TAVILY_API_KEY)'' @ newline @
        ''- LangSmith API (LANGCHAIN_API_KEY)'' @ newline @ newline @
        ''Please set these environment variables or add them to your .env file'')) \<and>
   \<not> sublist ''ANTHROPIC_API_KEY''
       (missing_message [''Tavily Search API (TAVILY_API_KEY)'', ''LangSmith API (LANGCHAIN_API_KEY)''])"
proof -
  have vars: "partial_environ ''TAVILY_API_KEY'' = Some []"
    "partial_environ ''ANTHROPIC_API_KEY'' = Some ''sk-test''"
    "partial_environ ''LANGCHAIN_API_KEY'' = None"
    by (simp_all add: partial_environ_def)
  then have "\<exists>(key, service) \<in> set required_keys.
      partial_environ key = None \<or> partial_environ key = Some []"
    by (simp add: required_keys_def)
  from check_environment_names_missing [OF this] vars show ?thesis
    by (simp add: required_keys_def missing_message_def)
qed

text \<open>
  Claim C9. When the three required variables are all set to non-empty strings,
  \<open>check_environment\<close> returns without raising.
\<close>

theorem check_environment_ok:
  assumes "\<forall>(key, service) \<in> set required_keys. \<exists>v. env key = Some v \<and> v \<noteq> []"
  shows "check_environment env = Inr ()"
proof -
  from assms have "\<not> not_getenv env ''TAVILY_API_KEY''" "\<not> not_getenv env ''ANTHROPIC_API_KEY''"
    "\<not> not_getenv env ''LANGCHAIN_API_KEY''"
    by (auto simp: required_keys_def not_getenv_def)
  then show ?thesis
    by (simp add: check_environment_def collect_missing_required)
qed

theorem check_environment_ok_witness:
  "check_environment full_environ = Inr ()"
proof -
  have "\<forall>(key, service) \<in> set required_keys. \<exists>v. full_environ key = Some v \<and> v \<noteq> []"
    by (simp add: required_keys_def full_environ_def)
  then show ?thesis
    by (rule check_environment_ok)
qed

section \<open>The steps\<close>

lemma last_item_nonempty: "xs \<noteq> [] \<Longrightarrow> last_item xs = Inr (last xs)"
  by (cases xs) (simp_all add: last_item_def)

lemma last_item_empty: "last_item [] = Inl IndexError"
  by (simp add: last_item_def)

lemma Research_actor:
  "ResearchAgent search_tool state = Inr upd \<Longrightarrow> upd_current_actor upd = Some ''analyst''"
  by (auto simp: ResearchAgent_def Let_def split: sum.splits)

lemma Analysis_actor:
  "AnalysisAgent llm state = Inr upd \<Longrightarrow> upd_current_actor upd = Some ''writer''"
  by (auto simp: AnalysisAgent_def split: sum.splits)

lemma Writing_actor:
  "WritingAgent llm state = Inr upd \<Longrightarrow> upd_current_actor upd = Some ''end''"
  by (auto simp: WritingAgent_def split: sum.splits)

lemma apply_update_actor:
  "upd_current_actor upd = Some a \<Longrightarrow> current_actor (apply_update state upd) = a"
  by (simp add: apply_update_def)

lemma Research_routes:
  "ResearchAgent search_tool state = Inr upd \<Longrightarrow> current_actor (apply_update state upd) = ''analyst''"
  by (simp add: Research_actor apply_update_actor)

lemma Analysis_routes:
  "AnalysisAgent llm state = Inr upd \<Longrightarrow> current_actor (apply_update state upd) = ''writer''"
  by (simp add: Analysis_actor apply_update_actor)

lemma Writing_routes:
  "WritingAgent llm state = Inr upd \<Longrightarrow> current_actor (apply_update state upd) = ''end''"
  by (simp add: Writing_actor apply_update_actor)

lemma py_str_sample_results:
  "py_str sample_results =
     ''['' @ [CHR 0x27] @ ''result A'' @ [CHR 0x27] @ '', '' @ [CHR 0x27] @ ''result B'' @ [CHR 0x27] @ '']''"
  unfolding sample_results_def by code_simp

lemma Research_inputs:
  "ResearchAgent (stub_search sample_results) inputs =
     Inr \<lparr>upd_messages = Some [HumanMessage (''Research data: '' @ py_str sample_results)],
          upd_research_data = Some sample_results,
          upd_current_actor = Some ''analyst''\<rparr>"
  by (simp add: ResearchAgent_def last_item_def inputs_def stub_search_def HumanMessage_def)

lemma Analysis_inputs:
  "AnalysisAgent (stub_llm sample_response) inputs =
     Inr \<lparr>upd_messages = Some [HumanMessage ''final''],
          upd_research_data = None,
          upd_current_actor = Some ''writer''\<rparr>"
  by (simp add: AnalysisAgent_def stub_llm_def sample_response_def)

lemma Writing_inputs:
  "WritingAgent (stub_llm sample_response) inputs =
     Inr \<lparr>upd_messages = Some [sample_response],
          upd_research_data = None,
          upd_current_actor = Some ''end''\<rparr>"
  by (simp add: WritingAgent_def last_item_def inputs_def stub_llm_def HumanMessage_def)

lemma sublist_join: "x \<in> set xs \<Longrightarrow> sublist x (join sep xs)"
proof (induction sep xs rule: join.induct)
  case (1 sep)
  then show ?case by simp
next
  case (2 sep y)
  then show ?case by simp
next
  case (3 sep y z zs)
  show ?case
  proof (cases "x = y")
    case True
    then show ?thesis by simp
  next
    case False
    with 3 have "sublist x (join sep (z # zs))"
      by simp
    then have "sublist x ((y @ sep) @ join sep (z # zs))"
      by (rule sublist_order.order.trans) (rule sublist_append_leftI)
    then show ?thesis by simp
  qed
qed

lemma repr_char_plain:
  assumes "printable c" "c \<noteq> CHR 0x27" "c \<noteq> CHR 0x5C"
  shows "repr_char (CHR 0x27) c = [c]"
proof -
  from assms(1) have "32 \<le> (of_char c :: nat)"
    by (auto simp: printable_def Let_def)
  then have "c \<noteq> CHR 0x09" "c \<noteq> CHR 0x0A" "c \<noteq> CHR 0x0D"
    by auto
  with assms show ?thesis
    by (simp add: repr_char_def)
qed

lemma repr_str_plain:
  assumes "plain s"
  shows "repr_str s = [CHR 0x27] @ s @ [CHR 0x27]"
proof -
  from assms have chars: "\<forall>c \<in> set s. printable c \<and> c \<noteq> CHR 0x27 \<and> c \<noteq> CHR 0x5C"
    by (simp add: plain_def list_all_iff)
  then have "concat (map (repr_char (CHR 0x27)) s) = s"
    by (induction s) (simp_all add: repr_char_plain)
  moreover from chars have "CHR 0x27 \<notin> set s"
    by auto
  ultimately show ?thesis
    by (simp add: repr_str_def Let_def)
qed

lemma strings_in_repr:
  "s \<in> set (strings_of v) \<Longrightarrow> plain s \<Longrightarrow> sublist s (py_repr v)"
proof (induction v rule: py_repr.induct)
  case (1 t)
  have "sublist t ([CHR 0x27] @ t @ [CHR 0x27])"
    by (rule sublist_appendI)
  with 1 show ?case
    by (simp add: repr_str_plain)
next
  case (2 xs)
  then obtain x where x: "x \<in> set xs" "s \<in> set (strings_of x)"
    by auto
  with 2 have "sublist s (py_repr x)"
    by simp
  moreover from x(1) have "sublist (py_repr x) (join '', '' (map py_repr xs))"
    by (simp add: sublist_join)
  ultimately have "sublist s (join '', '' (map py_repr xs))"
    by (rule sublist_order.order.trans)
  then have "sublist s (''['' @ join '', '' (map py_repr xs) @ '']'')"
    by (rule sublist_order.order.trans) (rule sublist_appendI)
  then show ?case by simp
next
  case (3 kvs)
  then obtain kv where kv: "kv \<in> set kvs"
    "s \<in> set (strings_of (fst kv)) \<or> s \<in> set (strings_of (snd kv))"
    by auto
  let ?item = "py_repr (fst kv) @ '': '' @ py_repr (snd kv)"
  let ?items = "map (\<lambda>kv. py_repr (fst kv) @ '': '' @ py_repr (snd kv)) kvs"
  from kv(2) have "sublist s ?item"
  proof
    assume "s \<in> set (strings_of (fst kv))"
    with 3 kv(1) have "sublist s (py_repr (fst kv))"
      by simp
    then show ?thesis
      by (rule sublist_order.order.trans) (rule sublist_append_rightI)
  next
    assume "s \<in> set (strings_of (snd kv))"
    with 3 kv(1) have "sublist s (py_repr (snd kv))"
      by simp
    then have "sublist s ((py_repr (fst kv) @ '': '') @ py_repr (snd kv))"
      by (rule sublist_order.order.trans) (rule sublist_append_leftI)
    then show ?thesis by simp
  qed
  moreover from kv(1) have "sublist ?item (join '', '' ?items)"
    by (intro sublist_join) auto
  ultimately have "sublist s (join '', '' ?items)"
    by (rule sublist_order.order.trans)
  then have "sublist s (''{'' @ join '', '' ?items @ ''}'')"
    by (rule sublist_order.order.trans) (rule sublist_appendI)
  then show ?case by simp
qed

lemma strings_in_str:
  "s \<in> set (strings_of v) \<Longrightarrow> plain s \<Longrightarrow> sublist s (py_str v)"
proof (cases v)
  case (PyStr t)
  assume "s \<in> set (strings_of v)"
  with PyStr show ?thesis by simp
next
  case (PyList xs)
  assume "s \<in> set (strings_of v)" "plain s"
  then have "sublist s (py_repr v)" by (rule strings_in_repr)
  with PyList show ?thesis by simp
next
  case (PyDict kvs)
  assume "s \<in> set (strings_of v)" "plain s"
  then have "sublist s (py_repr v)" by (rule strings_in_repr)
  with PyDict show ?thesis by simp
qed

lemma py_str_plain_list:
  assumes "list_all plain ss"
  shows "py_str (PyList (map PyStr ss)) =
     ''['' @ join '', '' (map (\<lambda>s. [CHR 0x27] @ s @ [CHR 0x27]) ss) @ '']''"
proof -
  have a: "map py_repr (map PyStr ss) = map repr_str ss"
    by simp
  from assms have b: "map repr_str ss = map (\<lambda>s. [CHR 0x27] @ s @ [CHR 0x27]) ss"
    by (simp add: list_all_iff repr_str_plain)
  show ?thesis
    by (simp only: py_str.simps py_repr.simps a b)
qed

lemma py_str_sample_hits:
  "py_str sample_hits =
     ''[{'' @ [CHR 0x27] @ ''url'' @ [CHR 0x27] @ '': '' @
       [CHR 0x27] @ ''https://example.org'' @ [CHR 0x27] @ '', '' @
       [CHR 0x27] @ ''content'' @ [CHR 0x27] @ '': '' @
       [CHR 0x27] @ ''AI news'' @ [CHR 0x27] @ ''}]''"
  unfolding sample_hits_def by code_simp

text \<open>
  Claim C4. On a state with a non-empty message history, when the search tool returns
  \<open>R\<close> for the text of the last message, the research step returns one new message
  whose text is \<^verbatim>\<open>Research data: \<close> followed by \<^verbatim>\<open>str(R)\<close>, \<open>research_data\<close> equal
  to \<open>R\<close> and \<open>current_actor\<close> equal to \<^verbatim>\<open>analyst\<close>. The text shows \<open>R\<close>: a
  string result follows the label as it is, a list of plain strings follows it as the
  strings between apostrophes, separated by commas, in brackets, and every plain string
  that occurs anywhere in \<open>R\<close> occurs in the text.
\<close>

theorem ResearchAgent_result:
  assumes "messages state \<noteq> []"
    and "search_tool (content (last (messages state))) = Inr R"
  shows "\<exists>text.
     ResearchAgent search_tool state =
       Inr \<lparr>upd_messages = Some [\<lparr>msg_type = Human, content = ''Research data: '' @ text, msg_id = None\<rparr>],
            upd_research_data = Some R,
            upd_current_actor = Some ''analyst''\<rparr> \<and>
     text = py_str R \<and>
     (\<forall>s. R = PyStr s \<longrightarrow> text = s) \<and>
     (\<forall>ss. R = PyList (map PyStr ss) \<and> list_all plain ss \<longrightarrow>
        text = ''['' @ join '', '' (map (\<lambda>s. [CHR 0x27] @ s @ [CHR 0x27]) ss) @ '']'') \<and>
     (\<forall>s \<in> set (strings_of R). plain s \<longrightarrow> sublist s (''Research data: '' @ text))"
proof (intro exI conjI)
  from assms(1) have "last_item (messages state) = Inr (last (messages state))"
    by (rule last_item_nonempty)
  with assms(2) show "ResearchAgent search_tool state =
       Inr \<lparr>upd_messages = Some [\<lparr>msg_type = Human, content = ''Research data: '' @ py_str R, msg_id = None\<rparr>],
            upd_research_data = Some R,
            upd_current_actor = Some ''analyst''\<rparr>"
    by (simp add: ResearchAgent_def HumanMessage_def)
  show "py_str R = py_str R" ..
  show "\<forall>s. R = PyStr s \<longrightarrow> py_str R = s"
    by simp
  show "\<forall>ss. R = PyList (map PyStr ss) \<and> list_all plain ss \<longrightarrow>
        py_str R = ''['' @ join '', '' (map (\<lambda>s. [CHR 0x27] @ s @ [CHR 0x27]) ss) @ '']''"
    using py_str_plain_list by blast
  show "\<forall>s \<in> set (strings_of R). plain s \<longrightarrow> sublist s (''Research data: '' @ py_str R)"
  proof (intro ballI impI)
    fix s assume "s \<in> set (strings_of R)" "plain s"
    then have "sublist s (py_str R)"
      by (rule strings_in_str)
    then show "sublist s (''Research data: '' @ py_str R)"
      by (rule sublist_order.order.trans) (rule sublist_append_leftI)
  qed
qed

text \<open>
  With the seed message and a stub that returns the list of \<^verbatim>\<open>result A\<close> and
  \<^verbatim>\<open>result B\<close>, the text of the new message is the label followed by the list as
  Python prints it, and both strings occur in it. With a stub that returns a list of one
  dictionary, the text is the label followed by that list, and the strings of the
  dictionary occur in it.
\<close>

theorem ResearchAgent_result_witness:
  "messages inputs \<noteq> [] \<and>
   stub_search sample_results (content (last (messages inputs))) = Inr sample_results \<and>
   stub_search sample_hits (content (last (messages inputs))) = Inr sample_hits \<and>
   sample_results = PyList (map PyStr [''result A'', ''result B'']) \<and>
   list_all plain [''result A'', ''result B''] \<and>
   ResearchAgent (stub_search sample_results) inputs =
     Inr \<lparr>upd_messages = Some [\<lparr>msg_type = Human,
             content = ''Research data: ['' @ [CHR 0x27] @ ''result A'' @ [CHR 0x27] @ '', '' @
                       [CHR 0x27] @ ''result B'' @ [CHR 0x27] @ '']'',
             msg_id = None\<rparr>],
          upd_research_data = Some sample_results,
          upd_current_actor = Some ''analyst''\<rparr> \<and>
   sublist ''result A'' (''Research data: '' @ py_str sample_results) \<and>
   sublist ''result B'' (''Research data: '' @ py_str sample_results) \<and>
   ResearchAgent (stub_search sample_hits) inputs =
     Inr \<lparr>upd_messages = Some [\<lparr>msg_type = Human,
             content = ''Research data: [{'' @ [CHR 0x27] @ ''url'' @ [CHR 0x27] @ '': '' @
                       [CHR 0x27] @ ''https://example.org'' @ [CHR 0x27] @ '', '' @
                       [CHR 0x27] @ ''content'' @ [CHR 0x27] @ '': '' @
                       [CHR 0x27] @ ''AI news'' @ [CHR 0x27] @ ''}]'',
             msg_id = None\<rparr>],
          upd_research_data = Some sample_hits,
          upd_current_actor = Some ''analyst''\<rparr> \<and>
   sublist ''https://example.org'' (''Research data: '' @ py_str sample_hits) \<and>
   sublist ''AI news'' (''Research data: '' @ py_str sample_hits)"
proof -
  have h1: "messages inputs \<noteq> []"
    by (simp add: inputs_def)
  have h2: "stub_search sample_results (content (last (messages inputs))) = Inr sample_results"
    and h3: "stub_search sample_hits (content (last (messages inputs))) = Inr sample_hits"
    by (simp_all add: stub_search_def)
  have shape: "sample_results = PyList (map PyStr [''result A'', ''result B''])"
    by (simp add: sample_results_def)
  have plains: "list_all plain [''result A'', ''result B'']"
    "plain ''result A''" "plain ''result B''" "plain ''https://example.org''" "plain ''AI news''"
    by code_simp+
  have members: "''result A'' \<in> set (strings_of sample_results)"
    "''result B'' \<in> set (strings_of sample_results)"
    "''https://example.org'' \<in> set (strings_of sample_hits)"
    "''AI news'' \<in> set (strings_of sample_hits)"
    by (simp_all add: sample_results_def sample_hits_def)
  from ResearchAgent_result [of inputs "stub_search sample_results" sample_results, OF h1 h2]
  obtain body where
    r: "ResearchAgent (stub_search sample_results) inputs =
       Inr \<lparr>upd_messages = Some [\<lparr>msg_type = Human, content = ''Research data: '' @ body, msg_id = None\<rparr>],
            upd_research_data = Some sample_results,
            upd_current_actor = Some ''analyst''\<rparr>"
    and t: "body = py_str sample_results"
    and l: "\<forall>ss. sample_results = PyList (map PyStr ss) \<and> list_all plain ss \<longrightarrow>
        body = ''['' @ join '', '' (map (\<lambda>s. [CHR 0x27] @ s @ [CHR 0x27]) ss) @ '']''"
    and c: "\<forall>s \<in> set (strings_of sample_results). plain s \<longrightarrow> sublist s (''Research data: '' @ body)"
    by (elim exE conjE)
  from l shape plains(1)
  have "body = ''['' @ join '', '' (map (\<lambda>s. [CHR 0x27] @ s @ [CHR 0x27]) [''result A'', ''result B'']) @ '']''"
    by blast
  with r have res: "ResearchAgent (stub_search sample_results) inputs =
     Inr \<lparr>upd_messages = Some [\<lparr>msg_type = Human,
             content = ''Research data: ['' @ [CHR 0x27] @ ''result A'' @ [CHR 0x27] @ '', '' @
                       [CHR 0x27] @ ''result B'' @ [CHR 0x27] @ '']'',
             msg_id = None\<rparr>],
          upd_research_data = Some sample_results,
          upd_current_actor = Some ''analyst''\<rparr>"
    by simp
  from c members(1,2) plains(2,3)
  have sub: "sublist ''result A'' (''Research data: '' @ py_str sample_results)"
    "sublist ''result B'' (''Research data: '' @ py_str sample_results)"
    unfolding t by blast+
  from ResearchAgent_result [of inputs "stub_search sample_hits" sample_hits, OF h1 h3]
  obtain body' where
    r': "ResearchAgent (stub_search sample_hits) inputs =
       Inr \<lparr>upd_messages = Some [\<lparr>msg_type = Human, content = ''Research data: '' @ body', msg_id = None\<rparr>],
            upd_research_data = Some sample_hits,
            upd_current_actor = Some ''analyst''\<rparr>"
    and t': "body' = py_str sample_hits"
    and c': "\<forall>s \<in> set (strings_of sample_hits). plain s \<longrightarrow> sublist s (''Research data: '' @ body')"
    by (elim exE conjE)
  from r' have res': "ResearchAgent (stub_search sample_hits) inputs =
     Inr \<lparr>upd_messages = Some [\<lparr>msg_type = Human,
             content = ''Research data: [{'' @ [CHR 0x27] @ ''url'' @ [CHR 0x27] @ '': '' @
                       [CHR 0x27] @ ''https://example.org'' @ [CHR 0x27] @ '', '' @
                       [CHR 0x27] @ ''content'' @ [CHR 0x27] @ '': '' @
                       [CHR 0x27] @ ''AI news'' @ [CHR 0x27] @ ''}]'',
             msg_id = None\<rparr>],
          upd_research_data = Some sample_hits,
          upd_current_actor = Some ''analyst''\<rparr>"
    unfolding t' py_str_sample_hits by simp
  from c' members(3,4) plains(4,5)
  have sub': "sublist ''https://example.org'' (''Research data: '' @ py_str sample_hits)"
    "sublist ''AI news'' (''Research data: '' @ py_str sample_hits)"
    unfolding t' by blast+
  from h1 h2 h3 shape plains(1) res sub res' sub' show ?thesis
    by (intro conjI)
qed

text \<open>
  Claim C10. The research step and the writing step read the last message first: on a
  state with an empty message history each raises \<^verbatim>\<open>IndexError\<close>, whatever the client
  would answer, and on a non-empty history neither raises it. The analysis step does
  not read the history.
\<close>

theorem empty_history_IndexError:
  "(ResearchAgent search_tool state = Inl IndexError \<longleftrightarrow> messages state = []) \<and>
   (WritingAgent llm state = Inl IndexError \<longleftrightarrow> messages state = [])"
proof (cases "messages state = []")
  case True
  then show ?thesis
    by (simp add: ResearchAgent_def WritingAgent_def last_item_empty)
next
  case False
  then have "last_item (messages state) = Inr (last (messages state))"
    by (rule last_item_nonempty)
  with False show ?thesis
    by (simp add: ResearchAgent_def WritingAgent_def split: sum.splits)
qed

theorem empty_history_IndexError_witness:
  "messages (inputs\<lparr>messages := []\<rparr>) = [] \<and>
   ResearchAgent (stub_search sample_results) (inputs\<lparr>messages := []\<rparr>) = Inl IndexError \<and>
   WritingAgent (stub_llm sample_response) (inputs\<lparr>messages := []\<rparr>) = Inl IndexError \<and>
   ResearchAgent (stub_search sample_results) inputs \<noteq> Inl IndexError \<and>
   WritingAgent (stub_llm sample_response) inputs \<noteq> Inl IndexError"
  using empty_history_IndexError [of "stub_search sample_results" "inputs\<lparr>messages := []\<rparr>"
      "stub_llm sample_response"]
    empty_history_IndexError [of "stub_search sample_results" inputs "stub_llm sample_response"]
  by (simp add: inputs_def)

section \<open>Routing\<close>

lemma next_node_workflow:
  "next_node (workflow search_tool llm) name state =
     (if name = ''researcher'' then
        (if current_actor state = ''analyst'' then Inr ''analyst''
         else if current_actor state = ''writer'' then Inr ''writer''
         else if current_actor state = ''end'' then Inr END
         else Inl (KeyError (current_actor state)))
      else if name = ''analyst'' then
        (if current_actor state = ''writer'' then Inr ''writer''
         else if current_actor state = ''end'' then Inr END
         else Inl (KeyError (current_actor state)))
      else if name = ''writer'' then
        (if current_actor state = ''end'' then Inr END
         else Inl (KeyError (current_actor state)))
      else Inr END)"
  by (simp add: next_node_def workflow_def route_based_on_role_def)

text \<open>
  Claim C8. The routing function returns the \<open>current_actor\<close> field of the state and
  nothing else of the state matters: on two states with the same \<open>current_actor\<close> it
  returns the same name.
\<close>

theorem route_based_on_role_identity:
  "route_based_on_role s = current_actor s \<and>
   (current_actor s = current_actor t \<longrightarrow> route_based_on_role s = route_based_on_role t)"
  by (simp add: route_based_on_role_def)

theorem route_based_on_role_identity_witness:
  "current_actor inputs = current_actor (draft_state\<lparr>current_actor := ''researcher''\<rparr>) \<and>
   route_based_on_role inputs = ''researcher'' \<and>
   route_based_on_role (draft_state\<lparr>current_actor := ''researcher''\<rparr>) = ''researcher''"
proof -
  let ?t = "draft_state\<lparr>current_actor := ''researcher''\<rparr>"
  have same: "current_actor inputs = current_actor ?t"
    by (simp add: inputs_def)
  have tag: "current_actor inputs = ''researcher''"
    by (simp add: inputs_def)
  from route_based_on_role_identity [of inputs ?t] same
  have "route_based_on_role inputs = current_actor inputs"
    and "route_based_on_role inputs = route_based_on_role ?t"
    by blast+
  with same tag show ?thesis
    by simp
qed

text \<open>
  Claim C5. Whenever a step returns, the \<open>current_actor\<close> of its result is a literal:
  \<^verbatim>\<open>analyst\<close> for the research step, \<^verbatim>\<open>writer\<close> for the analysis step, \<^verbatim>\<open>end\<close> for
  the writing step, whatever the state and whatever the client answered. So the edge
  after the researcher node always picks the analyst node: the entries \<^verbatim>\<open>writer\<close> and
  \<^verbatim>\<open>end\<close> of its path map are never taken.
\<close>

theorem steps_fixed_actor:
  "(ResearchAgent search_tool s1 = Inr u1 \<longrightarrow>
      upd_current_actor u1 = Some ''analyst'' \<and>
      next_node (workflow search_tool llm) ''researcher'' (apply_update s1 u1) = Inr ''analyst'' \<and>
      next_node (workflow search_tool llm) ''researcher'' (apply_update s1 u1) \<noteq> Inr ''writer'' \<and>
      next_node (workflow search_tool llm) ''researcher'' (apply_update s1 u1) \<noteq> Inr END) \<and>
   (AnalysisAgent llm s2 = Inr u2 \<longrightarrow> upd_current_actor u2 = Some ''writer'') \<and>
   (WritingAgent llm s3 = Inr u3 \<longrightarrow> upd_current_actor u3 = Some ''end'')"
  by (simp add: Research_actor Analysis_actor Writing_actor next_node_workflow Research_routes END_def)

theorem steps_fixed_actor_witness:
  "ResearchAgent (stub_search sample_results) inputs =
     Inr \<lparr>upd_messages = Some [HumanMessage (''Research data: '' @ py_str sample_results)],
          upd_research_data = Some sample_results,
          upd_current_actor = Some ''analyst''\<rparr> \<and>
   next_node (workflow (stub_search sample_results) (stub_llm sample_response)) ''researcher''
     (apply_update inputs
        \<lparr>upd_messages = Some [HumanMessage (''Research data: '' @ py_str sample_results)],
         upd_research_data = Some sample_results,
         upd_current_actor = Some ''analyst''\<rparr>) = Inr ''analyst'' \<and>
   AnalysisAgent (stub_llm sample_response) inputs =
     Inr \<lparr>upd_messages = Some [HumanMessage ''final''],
          upd_research_data = None,
          upd_current_actor = Some ''writer''\<rparr> \<and>
   WritingAgent (stub_llm sample_response) inputs =
     Inr \<lparr>upd_messages = Some [sample_response],
          upd_research_data = None,
          upd_current_actor = Some ''end''\<rparr>"
  using steps_fixed_actor [of "stub_search sample_results" inputs
      "\<lparr>upd_messages = Some [HumanMessage (''Research data: '' @ py_str sample_results)],
         upd_research_data = Some sample_results,
         upd_current_actor = Some ''analyst''\<rparr>"
      "stub_llm sample_response" inputs
      "\<lparr>upd_messages = Some [HumanMessage ''final''],
          upd_research_data = None,
          upd_current_actor = Some ''writer''\<rparr>"
      inputs
      "\<lparr>upd_messages = Some [sample_response],
          upd_research_data = None,
          upd_current_actor = Some ''end''\<rparr>"]
    Research_inputs Analysis_inputs Writing_inputs
  by simp

lemma branches_workflow_path:
  assumes "map_of (branches (workflow search_tool llm)) name = Some (path, path_map)"
  shows "path = route_based_on_role"
  using assms by (auto simp: workflow_def split: if_splits)

text \<open>
  Claim C3, as the code has it. The script defines no routing error and the routing
  function never raises: it returns the tag. For a tag that is not a key of the path map
  of the step that just ran, the run does not go on to a step and does not end silently:
  the subscript of the path map raises the built-in \<^verbatim>\<open>KeyError\<close> with the tag.
\<close>

theorem unlisted_tag_raises_KeyError:
  assumes "map_of (branches (workflow search_tool llm)) name = Some (path, path_map)"
    and "current_actor state \<notin> fst ` set path_map"
  shows "path state = current_actor state \<and>
     next_node (workflow search_tool llm) name state = Inl (KeyError (current_actor state))"
proof -
  from assms(1) have "path = route_based_on_role"
    by (rule branches_workflow_path)
  then have path: "path state = current_actor state"
    by (simp add: route_based_on_role_def)
  with assms(2) have "map_of path_map (path state) = None"
    by (simp add: map_of_eq_None_iff)
  with assms(1) path show ?thesis
    by (simp add: next_node_def)
qed

theorem unlisted_tag_raises_KeyError_witness:
  "map_of (branches (workflow (stub_search sample_results) (stub_llm sample_response))) ''analyst''
     = Some (route_based_on_role, [(''writer'', ''writer''), (''end'', END)]) \<and>
   current_actor inputs \<notin> fst ` set [(''writer'', ''writer''), (''end'', END)] \<and>
   next_node (workflow (stub_search sample_results) (stub_llm sample_response)) ''analyst'' inputs
     = Inl (KeyError ''researcher'')"
proof -
  have h1: "map_of (branches (workflow (stub_search sample_results) (stub_llm sample_response))) ''analyst''
     = Some (route_based_on_role, [(''writer'', ''writer''), (''end'', END)])"
    by (simp add: workflow_def)
  have h2: "current_actor inputs \<notin> fst ` set [(''writer'', ''writer''), (''end'', END)]"
    by (simp add: inputs_def)
  have tag: "current_actor inputs = ''researcher''"
    by (simp add: inputs_def)
  from unlisted_tag_raises_KeyError [OF h1 h2] h1 h2 show ?thesis
    by (simp only: tag simp_thms)
qed

text \<open>
  Claim C3 as stated fails. On the seed state, whose tag \<^verbatim>\<open>researcher\<close> is not in the
  path map of the analyst node, the routing function returns the tag instead of
  raising, and what the edge raises is the \<^verbatim>\<open>KeyError\<close> of the dictionary subscript,
  not an error that the program defines.
\<close>

theorem routing_error_counterexample:
  "route_based_on_role (inputs\<lparr>messages := [sample_response]\<rparr>) = ''researcher'' \<and>
   next_node (workflow (stub_search sample_results) (stub_llm sample_response)) ''analyst''
     (inputs\<lparr>messages := [sample_response]\<rparr>) = Inl (KeyError ''researcher'')"
  by (simp add: next_node_workflow route_based_on_role_def inputs_def)

section \<open>The reducer\<close>

lemma ids_of_enumerate:
  "fst ` set (List.map_filter (\<lambda>(i, m). map_option (\<lambda>k. (k, i)) (msg_id m)) (enumerate n left))
     = {k. Some k \<in> msg_id ` set left}"
proof (induction left arbitrary: n)
  case Nil
  show ?case by simp
next
  case (Cons m left)
  show ?case
    by (cases "msg_id m") (auto simp: Cons.IH)
qed

lemma idx_of_enumerate:
  "(k, i) \<in> set (List.map_filter (\<lambda>(i, m). map_option (\<lambda>k. (k, i)) (msg_id m)) (enumerate n left))
     \<Longrightarrow> n \<le> i \<and> i < n + length left \<and> msg_id (left ! (i - n)) = Some k"
proof (induction left arbitrary: n)
  case Nil
  then show ?case by simp
next
  case (Cons m left)
  show ?case
  proof (cases "msg_id m = Some k \<and> i = n")
    case True
    then show ?thesis by simp
  next
    case False
    with Cons.prems
    have "(k, i) \<in> set (List.map_filter (\<lambda>(i, m). map_option (\<lambda>k. (k, i)) (msg_id m)) (enumerate (Suc n) left))"
      by (cases "msg_id m") auto
    from Cons.IH [OF this] show ?thesis
      by (auto simp: nth_Cons')
  qed
qed

lemma left_idx_by_id_None:
  "left_idx_by_id left k = None \<longleftrightarrow> Some k \<notin> msg_id ` set left"
  by (simp add: left_idx_by_id_def map_of_eq_None_iff ids_of_enumerate)

lemma left_idx_by_id_Some:
  assumes "left_idx_by_id left k = Some i"
  shows "i < length left \<and> msg_id (left ! i) = Some k"
proof -
  from assms have "(k, i) \<in> set (List.map_filter (\<lambda>(i, m). map_option (\<lambda>k. (k, i)) (msg_id m)) (enumerate 0 left))"
    by (auto simp: left_idx_by_id_def dest: map_of_SomeD)
  from idx_of_enumerate [OF this] show ?thesis
    by simp
qed

lemma add_messages_single:
  "add_messages left [m] =
     (case (case msg_id m of None \<Rightarrow> None | Some k \<Rightarrow> left_idx_by_id left k) of
        Some i \<Rightarrow> left[i := m] | None \<Rightarrow> left @ [m])"
  by (simp add: add_messages_def add_message_def)

lemma add_messages_no_id:
  "msg_id m = None \<Longrightarrow> add_messages left [m] = left @ [m]"
  by (simp add: add_messages_single)

lemma add_messages_new_id:
  assumes "msg_id m \<notin> msg_id ` set left"
  shows "add_messages left [m] = left @ [m]"
proof (cases "msg_id m")
  case None
  then show ?thesis by (simp add: add_messages_single)
next
  case (Some k)
  with assms have "left_idx_by_id left k = None"
    by (simp add: left_idx_by_id_None)
  with Some show ?thesis by (simp add: add_messages_single)
qed

lemma add_messages_same_id:
  assumes "msg_id m = Some k" and "Some k \<in> msg_id ` set left"
  shows "\<exists>i < length left. msg_id (left ! i) = Some k \<and> add_messages left [m] = left[i := m]"
proof -
  from assms(2) have "left_idx_by_id left k \<noteq> None"
    by (simp add: left_idx_by_id_None)
  then obtain i where i: "left_idx_by_id left k = Some i"
    by auto
  from left_idx_by_id_Some [OF i] assms(1) i show ?thesis
    by (auto simp: add_messages_single)
qed

lemma add_messages_left_no_ids:
  assumes "\<forall>x \<in> set left. msg_id x = None"
  shows "add_messages left [m] = left @ [m]"
proof (cases "msg_id m")
  case None
  then show ?thesis by (simp add: add_messages_single)
next
  case (Some k)
  from assms have "Some k \<notin> msg_id ` set left"
    by auto
  then have "left_idx_by_id left k = None"
    by (simp add: left_idx_by_id_None)
  with Some show ?thesis by (simp add: add_messages_single)
qed

lemma foldl_snoc: "foldl (\<lambda>merged m. merged @ [m]) xs ys = xs @ ys"
  by (induction ys arbitrary: xs) simp_all

lemma add_messages_empty_left: "add_messages [] right = right"
proof -
  have "add_message [] = (\<lambda>merged m. merged @ [m])"
    by (intro ext) (simp add: add_message_def left_idx_by_id_def split: option.splits)
  then show ?thesis
    by (simp add: add_messages_def foldl_snoc)
qed

lemma Research_upd:
  "ResearchAgent search_tool state = Inr upd \<Longrightarrow> \<exists>c. upd_messages upd = Some [HumanMessage c]"
  by (auto simp: ResearchAgent_def Let_def split: sum.splits)

lemma Analysis_upd:
  "AnalysisAgent llm state = Inr upd \<Longrightarrow>
   (\<exists>c. upd_messages upd = Some [HumanMessage c]) \<and> upd_research_data upd = None"
  by (auto simp: AnalysisAgent_def split: sum.splits)

lemma Writing_upd:
  "WritingAgent llm state = Inr upd \<Longrightarrow>
   (\<exists>m. upd_messages upd = Some [m]) \<and> upd_research_data upd = None"
  by (auto simp: WritingAgent_def split: sum.splits)

lemma apply_update_messages:
  "upd_messages upd = Some new \<Longrightarrow> messages (apply_update state upd) = add_messages (messages state) new"
  by (simp add: apply_update_def)

lemma apply_update_research_data:
  "upd_research_data upd = None \<Longrightarrow> research_data (apply_update state upd) = research_data state"
  by (simp add: apply_update_def)

lemma msg_id_HumanMessage: "msg_id (HumanMessage c) = None"
  by (simp add: HumanMessage_def)

text \<open>
  Claim C7, as the code has it. Merging the result of the research step or of the
  analysis step appends one message to the history. Merging the result of the writing
  step appends the message of the language model when that message has no id or an id
  that no message of the history has; when a message of the history has the same id,
  \<^verbatim>\<open>add_messages\<close> puts the new message in its place. The analysis step and the writing
  step leave \<open>research_data\<close> as it was.
\<close>

theorem merge_appends_unless_same_id:
  "(ResearchAgent search_tool s1 = Inr u1 \<longrightarrow>
      (\<exists>m. messages (apply_update s1 u1) = messages s1 @ [m])) \<and>
   (AnalysisAgent llm s2 = Inr u2 \<longrightarrow>
      (\<exists>m. messages (apply_update s2 u2) = messages s2 @ [m]) \<and>
      research_data (apply_update s2 u2) = research_data s2) \<and>
   (WritingAgent llm s3 = Inr u3 \<longrightarrow>
      research_data (apply_update s3 u3) = research_data s3 \<and>
      (\<exists>m. upd_messages u3 = Some [m] \<and>
         (msg_id m = None \<or> msg_id m \<notin> msg_id ` set (messages s3) \<longrightarrow>
            messages (apply_update s3 u3) = messages s3 @ [m]))) \<and>
   (WritingAgent llm s4 = Inr u4 \<longrightarrow>
      (\<exists>m. upd_messages u4 = Some [m] \<and>
         (msg_id m \<noteq> None \<and> msg_id m \<in> msg_id ` set (messages s4) \<longrightarrow>
            (\<exists>i < length (messages s4). msg_id (messages s4 ! i) = msg_id m \<and>
               messages (apply_update s4 u4) = (messages s4)[i := m]))))"
proof (intro conjI impI)
  assume "ResearchAgent search_tool s1 = Inr u1"
  then obtain c where "upd_messages u1 = Some [HumanMessage c]"
    by (auto dest: Research_upd)
  then have "messages (apply_update s1 u1) = messages s1 @ [HumanMessage c]"
    by (simp add: apply_update_messages add_messages_no_id msg_id_HumanMessage)
  then show "\<exists>m. messages (apply_update s1 u1) = messages s1 @ [m]" ..
next
  assume "AnalysisAgent llm s2 = Inr u2"
  then obtain c where "upd_messages u2 = Some [HumanMessage c]"
    by (auto dest: Analysis_upd)
  then have "messages (apply_update s2 u2) = messages s2 @ [HumanMessage c]"
    by (simp add: apply_update_messages add_messages_no_id msg_id_HumanMessage)
  then show "\<exists>m. messages (apply_update s2 u2) = messages s2 @ [m]" ..
next
  assume "AnalysisAgent llm s2 = Inr u2"
  then show "research_data (apply_update s2 u2) = research_data s2"
    by (simp add: Analysis_upd apply_update_research_data)
next
  assume "WritingAgent llm s3 = Inr u3"
  then show "research_data (apply_update s3 u3) = research_data s3"
    by (simp add: Writing_upd apply_update_research_data)
next
  assume "WritingAgent llm s3 = Inr u3"
  then obtain m where m: "upd_messages u3 = Some [m]"
    by (auto dest: Writing_upd)
  have "messages (apply_update s3 u3) = messages s3 @ [m]"
    if "msg_id m = None \<or> msg_id m \<notin> msg_id ` set (messages s3)"
    using that m by (auto simp: apply_update_messages add_messages_no_id add_messages_new_id)
  with m show "\<exists>m. upd_messages u3 = Some [m] \<and>
         (msg_id m = None \<or> msg_id m \<notin> msg_id ` set (messages s3) \<longrightarrow>
            messages (apply_update s3 u3) = messages s3 @ [m])"
    by blast
next
  assume "WritingAgent llm s4 = Inr u4"
  then obtain m where m: "upd_messages u4 = Some [m]"
    by (auto dest: Writing_upd)
  have "\<exists>i < length (messages s4). msg_id (messages s4 ! i) = msg_id m \<and>
               messages (apply_update s4 u4) = (messages s4)[i := m]"
    if "msg_id m \<noteq> None \<and> msg_id m \<in> msg_id ` set (messages s4)"
  proof -
    from that obtain k where "msg_id m = Some k"
      by (cases "msg_id m") simp_all
    with that have k: "msg_id m = Some k" "Some k \<in> msg_id ` set (messages s4)"
      by simp_all
    from add_messages_same_id [OF k] k(1) m show ?thesis
      by (simp add: apply_update_messages)
  qed
  with m show "\<exists>m. upd_messages u4 = Some [m] \<and>
         (msg_id m \<noteq> None \<and> msg_id m \<in> msg_id ` set (messages s4) \<longrightarrow>
            (\<exists>i < length (messages s4). msg_id (messages s4 ! i) = msg_id m \<and>
               messages (apply_update s4 u4) = (messages s4)[i := m]))"
    by blast
qed

lemma Writing_draft:
  "WritingAgent (stub_llm sample_response) draft_state =
     Inr \<lparr>upd_messages = Some [sample_response],
          upd_research_data = None,
          upd_current_actor = Some ''end''\<rparr>"
  by (simp add: WritingAgent_def last_item_def draft_state_def stub_llm_def)

theorem merge_appends_unless_same_id_witness:
  "ResearchAgent (stub_search sample_results) inputs =
     Inr \<lparr>upd_messages = Some [HumanMessage (''Research data: '' @ py_str sample_results)],
          upd_research_data = Some sample_results,
          upd_current_actor = Some ''analyst''\<rparr> \<and>
   AnalysisAgent (stub_llm sample_response) inputs =
     Inr \<lparr>upd_messages = Some [HumanMessage ''final''],
          upd_research_data = None,
          upd_current_actor = Some ''writer''\<rparr> \<and>
   WritingAgent (stub_llm sample_response) inputs =
     Inr \<lparr>upd_messages = Some [sample_response],
          upd_research_data = None,
          upd_current_actor = Some ''end''\<rparr> \<and>
   WritingAgent (stub_llm sample_response) draft_state =
     Inr \<lparr>upd_messages = Some [sample_response],
          upd_research_data = None,
          upd_current_actor = Some ''end''\<rparr> \<and>
   msg_id sample_response \<notin> msg_id ` set (messages inputs) \<and>
   msg_id sample_response \<noteq> None \<and>
   msg_id sample_response \<in> msg_id ` set (messages draft_state) \<and>
   (\<exists>m. messages (apply_update inputs
           \<lparr>upd_messages = Some [HumanMessage (''Research data: '' @ py_str sample_results)],
            upd_research_data = Some sample_results,
            upd_current_actor = Some ''analyst''\<rparr>) = messages inputs @ [m]) \<and>
   (\<exists>m. messages (apply_update inputs
           \<lparr>upd_messages = Some [HumanMessage ''final''],
            upd_research_data = None,
            upd_current_actor = Some ''writer''\<rparr>) = messages inputs @ [m]) \<and>
   messages (apply_update inputs
           \<lparr>upd_messages = Some [sample_response],
            upd_research_data = None,
            upd_current_actor = Some ''end''\<rparr>) = messages inputs @ [sample_response] \<and>
   (\<exists>i < length (messages draft_state).
      messages (apply_update draft_state
           \<lparr>upd_messages = Some [sample_response],
            upd_research_data = None,
            upd_current_actor = Some ''end''\<rparr>) = (messages draft_state)[i := sample_response])"
proof -
  let ?u1 = "\<lparr>upd_messages = Some [HumanMessage (''Research data: '' @ py_str sample_results)],
          upd_research_data = Some sample_results,
          upd_current_actor = Some ''analyst''\<rparr>"
  let ?u2 = "\<lparr>upd_messages = Some [HumanMessage ''final''],
          upd_research_data = None,
          upd_current_actor = Some ''writer''\<rparr>"
  let ?u3 = "\<lparr>upd_messages = Some [sample_response],
          upd_research_data = None,
          upd_current_actor = Some ''end''\<rparr>"
  have fresh: "msg_id sample_response \<notin> msg_id ` set (messages inputs)"
    by (simp add: sample_response_def inputs_def HumanMessage_def)
  have some: "msg_id sample_response \<noteq> None"
    by (simp add: sample_response_def)
  have same: "msg_id sample_response \<in> msg_id ` set (messages draft_state)"
    by (simp add: sample_response_def draft_state_def)
  note inst = merge_appends_unless_same_id [of "stub_search sample_results" inputs ?u1
      "stub_llm sample_response" inputs ?u2 inputs ?u3 draft_state ?u3]
  from inst Research_inputs
  have a: "\<exists>m. messages (apply_update inputs ?u1) = messages inputs @ [m]"
    by blast
  from inst Analysis_inputs
  have b: "\<exists>m. messages (apply_update inputs ?u2) = messages inputs @ [m]"
    by blast
  from inst Writing_inputs fresh
  have c: "messages (apply_update inputs ?u3) = messages inputs @ [sample_response]"
    by simp
  from inst Writing_draft some same
  have d: "\<exists>i < length (messages draft_state).
      messages (apply_update draft_state ?u3) = (messages draft_state)[i := sample_response]"
    by auto
  from Research_inputs Analysis_inputs Writing_inputs Writing_draft fresh some same a b c d
  show ?thesis
    by (intro conjI)
qed

text \<open>
  Claim C7 as stated fails. On a history whose message has the id of the message that
  the language model returns, merging the result of the writing step puts the new message
  in the place of the old one: the history is not extended, and the old message is gone.
\<close>

theorem writing_replaces_counterexample:
  "WritingAgent (stub_llm sample_response) draft_state =
     Inr \<lparr>upd_messages = Some [sample_response],
          upd_research_data = None,
          upd_current_actor = Some ''end''\<rparr> \<and>
   messages draft_state = [\<lparr>msg_type = AI, content = ''draft'', msg_id = Some ''msg_1''\<rparr>] \<and>
   messages (apply_update draft_state
       \<lparr>upd_messages = Some [sample_response],
        upd_research_data = None,
        upd_current_actor = Some ''end''\<rparr>) = [sample_response] \<and>
   \<not> prefix (messages draft_state)
       (messages (apply_update draft_state
          \<lparr>upd_messages = Some [sample_response],
           upd_research_data = None,
           upd_current_actor = Some ''end''\<rparr>)) \<and>
   \<lparr>msg_type = AI, content = ''draft'', msg_id = Some ''msg_1''\<rparr>
     \<notin> set (messages (apply_update draft_state
          \<lparr>upd_messages = Some [sample_response],
           upd_research_data = None,
           upd_current_actor = Some ''end''\<rparr>))"
proof -
  have merged: "messages (apply_update draft_state
       \<lparr>upd_messages = Some [sample_response],
        upd_research_data = None,
        upd_current_actor = Some ''end''\<rparr>) = [sample_response]"
    by (simp add: apply_update_def add_messages_single left_idx_by_id_def
        draft_state_def sample_response_def)
  have hist: "messages draft_state = [\<lparr>msg_type = AI, content = ''draft'', msg_id = Some ''msg_1''\<rparr>]"
    by (simp add: draft_state_def)
  have gone: "\<lparr>msg_type = AI, content = ''draft'', msg_id = Some ''msg_1''\<rparr> \<notin> set [sample_response]"
    "\<not> prefix [\<lparr>msg_type = AI, content = ''draft'', msg_id = Some ''msg_1''\<rparr>] [sample_response]"
    by (simp_all add: sample_response_def)
  from Writing_draft hist merged gone show ?thesis
    by (simp only: simp_thms)
qed

section \<open>Runs of the graph\<close>

lemma nodes_workflow:
  "map_of (nodes (workflow search_tool llm)) ''researcher'' = Some (ResearchAgent search_tool)"
  "map_of (nodes (workflow search_tool llm)) ''analyst'' = Some (AnalysisAgent llm)"
  "map_of (nodes (workflow search_tool llm)) ''writer'' = Some (WritingAgent llm)"
  by (simp_all add: workflow_def)

lemma nodes_other:
  "name \<noteq> ''researcher'' \<Longrightarrow> name \<noteq> ''analyst'' \<Longrightarrow> name \<noteq> ''writer'' \<Longrightarrow>
   map_of (nodes (workflow search_tool llm)) name = None"
  by (simp add: workflow_def)

lemma entry_point_workflow: "entry_point (workflow search_tool llm) = ''researcher''"
  by (simp add: workflow_def)

text \<open>The run from each node, by the literal tag that its step returns.\<close>

lemma run_writer:
  assumes "0 < limit"
  shows "run_graph limit (workflow search_tool llm) ''writer'' state =
     (case WritingAgent llm state of
        Inl e \<Rightarrow> Inl e
      | Inr upd \<Rightarrow> Inr ([(''writer'', apply_update state upd)], apply_update state upd))"
proof -
  from assms obtain n where n: "limit = Suc n"
    by (cases limit) simp_all
  show ?thesis
  proof (cases "WritingAgent llm state")
    case (Inl e)
    then show ?thesis by (simp add: n nodes_workflow)
  next
    case (Inr upd)
    then show ?thesis
      by (simp add: n nodes_workflow next_node_workflow Writing_routes Let_def)
  qed
qed

lemma run_analyst:
  assumes "0 < limit"
  shows "run_graph limit (workflow search_tool llm) ''analyst'' state =
     (case AnalysisAgent llm state of
        Inl e \<Rightarrow> Inl e
      | Inr upd \<Rightarrow>
          (case run_graph (limit - 1) (workflow search_tool llm) ''writer'' (apply_update state upd) of
             Inl e \<Rightarrow> Inl e
           | Inr (outputs, final) \<Rightarrow> Inr ((''analyst'', apply_update state upd) # outputs, final)))"
proof -
  from assms obtain n where n: "limit = Suc n"
    by (cases limit) simp_all
  show ?thesis
  proof (cases "AnalysisAgent llm state")
    case (Inl e)
    then show ?thesis by (simp add: n nodes_workflow)
  next
    case (Inr upd)
    then show ?thesis
      by (simp add: n nodes_workflow next_node_workflow Analysis_routes END_def Let_def)
  qed
qed

lemma run_researcher:
  assumes "0 < limit"
  shows "run_graph limit (workflow search_tool llm) ''researcher'' state =
     (case ResearchAgent search_tool state of
        Inl e \<Rightarrow> Inl e
      | Inr upd \<Rightarrow>
          (case run_graph (limit - 1) (workflow search_tool llm) ''analyst'' (apply_update state upd) of
             Inl e \<Rightarrow> Inl e
           | Inr (outputs, final) \<Rightarrow> Inr ((''researcher'', apply_update state upd) # outputs, final)))"
proof -
  from assms obtain n where n: "limit = Suc n"
    by (cases limit) simp_all
  show ?thesis
  proof (cases "ResearchAgent search_tool state")
    case (Inl e)
    then show ?thesis by (simp add: n nodes_workflow)
  next
    case (Inr upd)
    then show ?thesis
      by (simp add: n nodes_workflow next_node_workflow Research_routes END_def Let_def)
  qed
qed

text \<open>
  The run from the seed input with clients that answer \<open>f query\<close> and \<open>g prompt\<close>.
\<close>

lemma run_inputs:
  "\<exists>s1 s2 final.
     app_stream (\<lambda>query. Inr (f query)) (\<lambda>prompt. Inr (g prompt)) inputs =
       Inr ([(''researcher'', s1), (''analyst'', s2), (''writer'', final)], final) \<and>
     current_actor s1 = ''analyst'' \<and> current_actor s2 = ''writer'' \<and>
     current_actor final = ''end'' \<and>
     messages final =
       [HumanMessage ''Research latest AI advancements'',
        HumanMessage (''Research data: '' @ py_str (f ''Research latest AI advancements'')),
        HumanMessage (content (g (''Analyze this data: '' @ py_str (f ''Research latest AI advancements'')))),
        g (''Generate final response using: '' @
             content (g (''Analyze this data: '' @ py_str (f ''Research latest AI advancements''))))]"
  by (simp add: app_stream_def entry_point_workflow recursion_limit_def
      run_researcher run_analyst run_writer inputs_def
      add_messages_empty_left ResearchAgent_def AnalysisAgent_def WritingAgent_def last_item_def
      Let_def apply_update_def add_messages_left_no_ids HumanMessage_def)

text \<open>
  Claim C1. With the two clients replaced by deterministic stubs \<open>f\<close> and \<open>g\<close>, the
  run of the compiled graph from the seed input returns after three steps, the
  researcher, the analyst and the writer in this order; the final state has
  \<open>current_actor\<close> equal to \<^verbatim>\<open>end\<close> and a history of four messages: the seed and one
  message of each step.
\<close>

theorem stream_runs_three_steps:
  fixes f :: "string \<Rightarrow> pyval" and g :: "string \<Rightarrow> BaseMessage"
  shows "\<exists>outputs final.
     app_stream (\<lambda>query. Inr (f query)) (\<lambda>prompt. Inr (g prompt)) inputs = Inr (outputs, final) \<and>
     map fst outputs = [''researcher'', ''analyst'', ''writer''] \<and>
     length outputs = 3 \<and>
     current_actor final = ''end'' \<and>
     length (messages final) = 4 \<and>
     messages final =
       [HumanMessage ''Research latest AI advancements'',
        HumanMessage (''Research data: '' @ py_str (f ''Research latest AI advancements'')),
        HumanMessage (content (g (''Analyze this data: '' @ py_str (f ''Research latest AI advancements'')))),
        g (''Generate final response using: '' @
             content (g (''Analyze this data: '' @ py_str (f ''Research latest AI advancements''))))]"
proof -
  from run_inputs [of f g] obtain s1 s2 final where
    run: "app_stream (\<lambda>query. Inr (f query)) (\<lambda>prompt. Inr (g prompt)) inputs =
       Inr ([(''researcher'', s1), (''analyst'', s2), (''writer'', final)], final)"
    and final: "current_actor final = ''end''"
      "messages final =
       [HumanMessage ''Research latest AI advancements'',
        HumanMessage (''Research data: '' @ py_str (f ''Research latest AI advancements'')),
        HumanMessage (content (g (''Analyze this data: '' @ py_str (f ''Research latest AI advancements'')))),
        g (''Generate final response using: '' @
             content (g (''Analyze this data: '' @ py_str (f ''Research latest AI advancements''))))]"
    by blast
  show ?thesis
    by (rule exI [of _ "[(''researcher'', s1), (''analyst'', s2), (''writer'', final)]"],
        rule exI [of _ final]) (simp add: run final)
qed

text \<open>
  With the stub that returns the two sample results and the stub that returns the sample
  response, the run has the three steps and ends with the four messages.
\<close>

theorem stream_runs_three_steps_witness:
  "\<exists>outputs final.
     app_stream (stub_search sample_results) (stub_llm sample_response) inputs = Inr (outputs, final) \<and>
     map fst outputs = [''researcher'', ''analyst'', ''writer''] \<and>
     current_actor final = ''end'' \<and>
     messages final =
       [HumanMessage ''Research latest AI advancements'',
        HumanMessage (''Research data: '' @ py_str sample_results),
        HumanMessage ''final'',
        sample_response]"
proof -
  have stubs: "stub_search sample_results = (\<lambda>query. Inr sample_results)"
    "stub_llm sample_response = (\<lambda>prompt. Inr sample_response)"
    by (simp_all add: stub_search_def stub_llm_def fun_eq_iff)
  have reply: "content sample_response = ''final''"
    by (simp add: sample_response_def)
  from stream_runs_three_steps [of "\<lambda>_. sample_results" "\<lambda>_. sample_response"]
  obtain outputs final where run:
    "app_stream (\<lambda>query. Inr sample_results) (\<lambda>prompt. Inr sample_response) inputs = Inr (outputs, final)"
    "map fst outputs = [''researcher'', ''analyst'', ''writer'']"
    "current_actor final = ''end''"
    "messages final =
       [HumanMessage ''Research latest AI advancements'',
        HumanMessage (''Research data: '' @ py_str sample_results),
        HumanMessage (content sample_response),
        sample_response]"
    by (elim exE conjE)
  show ?thesis
    unfolding stubs
    by (rule exI [of _ outputs], rule exI [of _ final]) (simp add: run reply)
qed

lemma routes_in_tags:
  "current_actor s = ''analyst'' \<or> current_actor s = ''writer'' \<or> current_actor s = ''end'' \<Longrightarrow>
   route_based_on_role s \<in> actor_tags"
  by (auto simp: route_based_on_role_def actor_tags_def)

lemma run_graph_tags:
  "run_graph limit (workflow search_tool llm) name state = Inr (outputs, final) \<Longrightarrow>
   (n, s) \<in> set outputs \<Longrightarrow> route_based_on_role s \<in> actor_tags"
proof (induction limit arbitrary: name state outputs)
  case 0
  then show ?case by simp
next
  case (Suc limit)
  consider "name = ''researcher''" | "name = ''analyst''" | "name = ''writer''"
    | "map_of (nodes (workflow search_tool llm)) name = None"
    using nodes_other [of name search_tool llm] by argo
  then show ?case
  proof cases
    case 1
    have "0 < Suc limit" by simp
    note unfold = run_researcher [OF this, of search_tool llm state]
    from Suc.prems show ?thesis
      unfolding 1 unfold
      by (auto simp del: run_graph.simps simp: Research_routes routes_in_tags dest: Suc.IH
          split: sum.splits)
  next
    case 2
    have "0 < Suc limit" by simp
    note unfold = run_analyst [OF this, of search_tool llm state]
    from Suc.prems show ?thesis
      unfolding 2 unfold
      by (auto simp del: run_graph.simps simp: Analysis_routes routes_in_tags dest: Suc.IH
          split: sum.splits)
  next
    case 3
    have "0 < Suc limit" by simp
    note unfold = run_writer [OF this, of search_tool llm state]
    from Suc.prems show ?thesis
      unfolding 3 unfold
      by (auto simp del: run_graph.simps simp: Writing_routes routes_in_tags
          split: sum.splits)
  next
    case 4
    with Suc.prems show ?thesis by simp
  qed
qed

lemma run_graph_final:
  "run_graph limit graph name state = Inr (outputs, final) \<Longrightarrow>
   outputs \<noteq> [] \<and> final = snd (last outputs)"
proof (induction limit arbitrary: name state outputs)
  case 0
  then show ?case by simp
next
  case (Suc limit)
  then show ?case
    by (fastforce simp: Let_def split: option.splits sum.splits if_splits)
qed

text \<open>
  Claim C6. From a state whose \<open>current_actor\<close> is one of \<^verbatim>\<open>researcher\<close>,
  \<^verbatim>\<open>analyst\<close>, \<^verbatim>\<open>writer\<close> and \<^verbatim>\<open>end\<close>, the state that holds the result of any of the
  three steps has its \<open>current_actor\<close> among them again, and in every run of the graph
  from such a state every state handed to the routing function, and the final state,
  has its tag among them.
\<close>

theorem actor_tags_invariant:
  assumes "current_actor state \<in> actor_tags"
  shows "(ResearchAgent search_tool state = Inr u1 \<longrightarrow> current_actor (apply_update state u1) \<in> actor_tags) \<and>
     (AnalysisAgent llm state = Inr u2 \<longrightarrow> current_actor (apply_update state u2) \<in> actor_tags) \<and>
     (WritingAgent llm state = Inr u3 \<longrightarrow> current_actor (apply_update state u3) \<in> actor_tags) \<and>
     (app_stream search_tool llm state = Inr (outputs, final) \<longrightarrow>
        (\<forall>(name, s) \<in> set outputs. route_based_on_role s \<in> actor_tags) \<and>
        current_actor final \<in> actor_tags)"
proof (intro conjI impI)
  assume "ResearchAgent search_tool state = Inr u1"
  then show "current_actor (apply_update state u1) \<in> actor_tags"
    by (simp add: Research_routes actor_tags_def)
next
  assume "AnalysisAgent llm state = Inr u2"
  then show "current_actor (apply_update state u2) \<in> actor_tags"
    by (simp add: Analysis_routes actor_tags_def)
next
  assume "WritingAgent llm state = Inr u3"
  then show "current_actor (apply_update state u3) \<in> actor_tags"
    by (simp add: Writing_routes actor_tags_def)
next
  assume run: "app_stream search_tool llm state = Inr (outputs, final)"
  then show tags: "\<forall>(name, s) \<in> set outputs. route_based_on_role s \<in> actor_tags"
    by (auto simp: app_stream_def Let_def dest: run_graph_tags)
  from run have "outputs \<noteq> []" and "final = snd (last outputs)"
    by (auto simp: app_stream_def Let_def dest: run_graph_final)
  then have "(fst (last outputs), final) \<in> set outputs"
    by (metis last_in_set prod.collapse)
  with tags show "current_actor final \<in> actor_tags"
    by (auto simp: route_based_on_role_def)
qed

theorem actor_tags_invariant_witness:
  "current_actor inputs \<in> actor_tags \<and>
   ResearchAgent (stub_search sample_results) inputs =
     Inr \<lparr>upd_messages = Some [HumanMessage (''Research data: '' @ py_str sample_results)],
          upd_research_data = Some sample_results,
          upd_current_actor = Some ''analyst''\<rparr> \<and>
   AnalysisAgent (stub_llm sample_response) inputs =
     Inr \<lparr>upd_messages = Some [HumanMessage ''final''],
          upd_research_data = None,
          upd_current_actor = Some ''writer''\<rparr> \<and>
   WritingAgent (stub_llm sample_response) inputs =
     Inr \<lparr>upd_messages = Some [sample_response],
          upd_research_data = None,
          upd_current_actor = Some ''end''\<rparr> \<and>
   current_actor (apply_update inputs
     \<lparr>upd_messages = Some [HumanMessage (''Research data: '' @ py_str sample_results)],
      upd_research_data = Some sample_results,
      upd_current_actor = Some ''analyst''\<rparr>) \<in> actor_tags \<and>
   current_actor (apply_update inputs
     \<lparr>upd_messages = Some [HumanMessage ''final''],
      upd_research_data = None,
      upd_current_actor = Some ''writer''\<rparr>) \<in> actor_tags \<and>
   current_actor (apply_update inputs
     \<lparr>upd_messages = Some [sample_response],
      upd_research_data = None,
      upd_current_actor = Some ''end''\<rparr>) \<in> actor_tags \<and>
   (\<exists>outputs final.
      app_stream (stub_search sample_results) (stub_llm sample_response) inputs = Inr (outputs, final) \<and>
      map (route_based_on_role \<circ> snd) outputs = [''analyst'', ''writer'', ''end''] \<and>
      list_all (\<lambda>output. route_based_on_role (snd output) \<in> actor_tags) outputs \<and>
      current_actor final \<in> actor_tags)"
proof -
  let ?u1 = "\<lparr>upd_messages = Some [HumanMessage (''Research data: '' @ py_str sample_results)],
          upd_research_data = Some sample_results,
          upd_current_actor = Some ''analyst''\<rparr>"
  let ?u2 = "\<lparr>upd_messages = Some [HumanMessage ''final''],
          upd_research_data = None,
          upd_current_actor = Some ''writer''\<rparr>"
  let ?u3 = "\<lparr>upd_messages = Some [sample_response],
          upd_research_data = None,
          upd_current_actor = Some ''end''\<rparr>"
  have tag: "current_actor inputs \<in> actor_tags"
    by (simp add: inputs_def actor_tags_def)
  have stubs: "stub_search sample_results = (\<lambda>query. Inr ((\<lambda>_. sample_results) query))"
    "stub_llm sample_response = (\<lambda>prompt. Inr ((\<lambda>_. sample_response) prompt))"
    by (simp_all add: stub_search_def stub_llm_def fun_eq_iff)
  from run_inputs [of "\<lambda>_. sample_results" "\<lambda>_. sample_response"]
  obtain s1 s2 final where
    run: "app_stream (stub_search sample_results) (stub_llm sample_response) inputs =
       Inr ([(''researcher'', s1), (''analyst'', s2), (''writer'', final)], final)"
    and routed: "current_actor s1 = ''analyst''" "current_actor s2 = ''writer''"
      "current_actor final = ''end''"
    unfolding stubs [symmetric] by blast
  note inst = actor_tags_invariant [OF tag, of "stub_search sample_results" ?u1
      "stub_llm sample_response" ?u2 ?u3
      "[(''researcher'', s1), (''analyst'', s2), (''writer'', final)]" final]
  from inst Research_inputs have a: "current_actor (apply_update inputs ?u1) \<in> actor_tags"
    by blast
  from inst Analysis_inputs have b: "current_actor (apply_update inputs ?u2) \<in> actor_tags"
    by blast
  from inst Writing_inputs have c: "current_actor (apply_update inputs ?u3) \<in> actor_tags"
    by blast
  from inst run
  have d: "list_all (\<lambda>output. route_based_on_role (snd output) \<in> actor_tags)
             [(''researcher'', s1), (''analyst'', s2), (''writer'', final)]"
    and e: "current_actor final \<in> actor_tags"
    by simp_all
  have f: "map (route_based_on_role \<circ> snd) [(''researcher'', s1), (''analyst'', s2), (''writer'', final)]
      = [''analyst'', ''writer'', ''end'']"
    by (simp add: route_based_on_role_def routed)
  from run d e f
  have "\<exists>outputs final.
      app_stream (stub_search sample_results) (stub_llm sample_response) inputs = Inr (outputs, final) \<and>
      map (route_based_on_role \<circ> snd) outputs = [''analyst'', ''writer'', ''end''] \<and>
      list_all (\<lambda>output. route_based_on_role (snd output) \<in> actor_tags) outputs \<and>
      current_actor final \<in> actor_tags"
    by (intro exI conjI)
  with tag Research_inputs Analysis_inputs Writing_inputs a b c show ?thesis
    by (intro conjI)
qed

end
